theory Spec2Isabelle
  imports Complex_Main "HOL-Library.Multiset"
begin

section \<open>Reference redaction: region consolidation and the redaction job\<close>

text \<open>
  A shallow embedding of \<^verbatim>\<open>src/redactor/__init__.py\<close>. A Python float is modelled
  by the real number it denotes; the special values \<^verbatim>\<open>inf\<close> and \<^verbatim>\<open>nan\<close> are outside the
  model. Comparisons, minima, maxima and sorting are those of the code. The sums and
  differences of merging (lines 166-168) are rounded to the nearest double by \<open>fl\<close>,
  since the bounds of a merged region depend on that rounding; the other arithmetic is
  exact. Python's unbounded integers are \<open>int\<close>. Library calls (the XML parser, the file
  system, the PDF library, the built-ins \<^verbatim>\<open>int()\<close> and \<^verbatim>\<open>float()\<close>) appear through what
  they return or raise.
\<close>

subsection \<open>Constants\<close>

definition HORIZONTAL_THRESHOLD_RATIO :: real where
  "HORIZONTAL_THRESHOLD_RATIO = 16 / 100"

definition LINE_HEIGHT_MULTIPLIER :: real where
  "LINE_HEIGHT_MULTIPLIER = 4"

definition VERTICAL_Y_THRESHOLD_TOP :: real where
  "VERTICAL_Y_THRESHOLD_TOP = 120"

definition VERTICAL_Y_THRESHOLD_BOTTOM :: real where
  "VERTICAL_Y_THRESHOLD_BOTTOM = 80"

definition DELETION_PADDING :: real where
  "DELETION_PADDING = 7"

subsection \<open>Double rounding\<close>

text \<open>
  \<open>rne\<close> rounds a real to the nearest integer, a tie to the even one. \<open>fl\<close> rounds a real
  to the nearest number with a 53-bit significand, a tie to the even significand, as
  IEEE 754 binary64 arithmetic does for a result in its normal range: for
  \<open>2^e \<le> |x| < 2^(e+1)\<close> the spacing of the doubles is \<open>2^(e-52)\<close>. Overflow and subnormal
  numbers are not modelled.
\<close>

definition rne :: "real \<Rightarrow> int" where
  "rne t =
     (let f = \<lfloor>t\<rfloor> in
      if t - of_int f < 1 / 2 then f
      else if t - of_int f > 1 / 2 then f + 1
      else if even f then f else f + 1)"

definition fl :: "real \<Rightarrow> real" where
  "fl x =
     (if x = 0 then 0
      else let u = 2 powr of_int (\<lfloor>log 2 \<bar>x\<bar>\<rfloor> - 52) in of_int (rne (x / u)) * u)"

subsection \<open>Boxes\<close>

text \<open>
  A raw box is the dictionary \<^verbatim>\<open>{'x': x, 'y': y, 'w': w, 'h': h}\<close>; its page is the key
  under which it is stored. A merged box carries a \<^verbatim>\<open>cluster_id\<close> in addition.
\<close>

record box =
  box_x :: real
  box_y :: real
  box_w :: real
  box_h :: real

record merged_box = box +
  cluster_id :: nat

subsection \<open>Cluster cleaning (\<^verbatim>\<open>_clean_cluster\<close>)\<close>

text \<open>
  \<^verbatim>\<open>statistics.median\<close>: sort the data; the middle element for an odd count, the mean
  of the two middle elements for an even count; \<^verbatim>\<open>StatisticsError\<close> (here \<open>None\<close>) on
  empty data.
\<close>

definition median :: "real list \<Rightarrow> real option" where
  "median data =
     (let d = sort data; n = length d in
      if n = 0 then None
      else if n mod 2 = 1 then Some (d ! (n div 2))
      else Some ((d ! (n div 2 - 1) + d ! (n div 2)) / 2))"

text \<open>
  The comprehension of lines 127-128: the differences of consecutive \<open>y\<close> values that
  are strictly positive, in order.
\<close>

fun positive_gaps :: "box list \<Rightarrow> real list" where
  "positive_gaps (a # b # bs) =
     (if box_y b > box_y a then (box_y b - box_y a) # positive_gaps (b # bs)
      else positive_gaps (b # bs))"
| "positive_gaps bs = []"

text \<open>
  The loop of lines 134-141. Its state is the previous box, the boxes still to visit,
  \<^verbatim>\<open>current_sub_cluster\<close> and \<^verbatim>\<open>sub_clusters\<close>; the final append of line 141 is the
  base case.
\<close>

fun sub_cluster_loop :: "real \<Rightarrow> box \<Rightarrow> box list \<Rightarrow> box list \<Rightarrow> box list list \<Rightarrow> box list list" where
  "sub_cluster_loop jump_threshold prev [] current_sub_cluster sub_clusters =
     sub_clusters @ [current_sub_cluster]"
| "sub_cluster_loop jump_threshold prev (b # bs) current_sub_cluster sub_clusters =
     (if box_y b - box_y prev > jump_threshold
      then sub_cluster_loop jump_threshold b bs [b] (sub_clusters @ [current_sub_cluster])
      else sub_cluster_loop jump_threshold b bs (current_sub_cluster @ [b]) sub_clusters)"

text \<open>
  \<^verbatim>\<open>max(sub_clusters, key=len)\<close>: the running maximum is replaced only by a strictly
  longer list, so the first of the longest lists is returned.
\<close>

fun max_len_from :: "'a list \<Rightarrow> 'a list list \<Rightarrow> 'a list" where
  "max_len_from best [] = best"
| "max_len_from best (c # cs) =
     max_len_from (if length c > length best then c else best) cs"

definition is_in_header :: "box \<Rightarrow> bool" where
  "is_in_header b \<longleftrightarrow> box_y b < VERTICAL_Y_THRESHOLD_TOP"

definition is_in_footer :: "box \<Rightarrow> real \<Rightarrow> bool" where
  "is_in_footer b page_height \<longleftrightarrow> box_y b > page_height - VERTICAL_Y_THRESHOLD_BOTTOM"

text \<open>
  \<^verbatim>\<open>list.sort(key=...)\<close> is a stable sort, as \<open>sort_key\<close> is. The list sorted in place
  is the caller's fresh \<^verbatim>\<open>current_cluster\<close>, so no other list is affected. The median
  is taken only when \<open>gaps\<close> is not empty, where it does not raise.
\<close>

definition clean_cluster :: "box list \<Rightarrow> real \<Rightarrow> box list" where
  "clean_cluster cluster_boxes page_height =
     (if length cluster_boxes \<le> 1 then cluster_boxes
      else if length cluster_boxes = 2
      then filter (\<lambda>b. \<not> is_in_header b \<and> \<not> is_in_footer b page_height) cluster_boxes
      else
        let sorted_boxes = sort_key box_y cluster_boxes;
            gaps = positive_gaps sorted_boxes
        in if gaps = [] then sorted_boxes
           else
             let standard_line_height = the (median gaps);
                 jump_threshold = standard_line_height * LINE_HEIGHT_MULTIPLIER;
                 sub_clusters = sub_cluster_loop jump_threshold (hd sorted_boxes)
                                  (tl sorted_boxes) [hd sorted_boxes] []
             in if sub_clusters = [] then []
                else max_len_from (hd sub_clusters) (tl sub_clusters))"

subsection \<open>Horizontal clustering and merging (\<^verbatim>\<open>_cluster_and_merge_boxes\<close>)\<close>

text \<open>
  The loop of lines 151-161, with the cleaning of each finished cluster as the code
  interleaves it: a cleaned cluster is kept only when it is not empty.
\<close>

definition append_cleaned :: "box list list \<Rightarrow> box list \<Rightarrow> real \<Rightarrow> box list list" where
  "append_cleaned clusters current_cluster page_height =
     (let cleaned = clean_cluster current_cluster page_height
      in if cleaned \<noteq> [] then clusters @ [cleaned] else clusters)"

fun cluster_loop :: "real \<Rightarrow> real \<Rightarrow> box \<Rightarrow> box list \<Rightarrow> box list \<Rightarrow> box list list \<Rightarrow> box list list" where
  "cluster_loop threshold page_height prev [] current_cluster clusters =
     append_cleaned clusters current_cluster page_height"
| "cluster_loop threshold page_height prev (b # bs) current_cluster clusters =
     (if box_x b - box_x prev > threshold
      then cluster_loop threshold page_height b bs [b]
             (append_cleaned clusters current_cluster page_height)
      else cluster_loop threshold page_height b bs (current_cluster @ [b]) clusters)"

text \<open>
  The same loop without the cleaning step: the clusters as horizontal clustering forms
  them, before any box is dropped.
\<close>

fun raw_cluster_loop :: "real \<Rightarrow> box \<Rightarrow> box list \<Rightarrow> box list \<Rightarrow> box list list \<Rightarrow> box list list" where
  "raw_cluster_loop threshold prev [] current_cluster clusters = clusters @ [current_cluster]"
| "raw_cluster_loop threshold prev (b # bs) current_cluster clusters =
     (if box_x b - box_x prev > threshold
      then raw_cluster_loop threshold b bs [b] (clusters @ [current_cluster])
      else raw_cluster_loop threshold b bs (current_cluster @ [b]) clusters)"

definition raw_clusters :: "box list \<Rightarrow> real \<Rightarrow> box list list" where
  "raw_clusters boxes page_width =
     (case boxes of [] \<Rightarrow> []
      | b # bs \<Rightarrow> raw_cluster_loop (page_width * HORIZONTAL_THRESHOLD_RATIO) b bs [b] [])"

text \<open>The value of \<^verbatim>\<open>clusters\<close> after line 161.\<close>

definition cleaned_clusters :: "box list \<Rightarrow> real \<Rightarrow> real \<Rightarrow> box list list" where
  "cleaned_clusters boxes page_width page_height =
     (case boxes of [] \<Rightarrow> []
      | b # bs \<Rightarrow> cluster_loop (page_width * HORIZONTAL_THRESHOLD_RATIO) page_height b bs [b] [])"

text \<open>
  \<^verbatim>\<open>min\<close> and \<^verbatim>\<open>max\<close> over a generator: a running value replaced by a strictly
  smaller (larger) one. On an empty argument Python raises \<^verbatim>\<open>ValueError\<close>; the clusters
  merged are never empty.
\<close>

fun py_min_from :: "real \<Rightarrow> real list \<Rightarrow> real" where
  "py_min_from m [] = m"
| "py_min_from m (v # vs) = py_min_from (if v < m then v else m) vs"

fun py_max_from :: "real \<Rightarrow> real list \<Rightarrow> real" where
  "py_max_from m [] = m"
| "py_max_from m (v # vs) = py_max_from (if v > m then v else m) vs"

definition py_min :: "real list \<Rightarrow> real" where
  "py_min vs = py_min_from (hd vs) (tl vs)"

definition py_max :: "real list \<Rightarrow> real" where
  "py_max vs = py_max_from (hd vs) (tl vs)"

text \<open>
  Lines 164-167: the four extreme values of a cluster. The right and bottom edges
  \<^verbatim>\<open>b['x'] + b['w']\<close> and \<^verbatim>\<open>b['y'] + b['h']\<close> are double sums.
\<close>

definition min_x :: "box list \<Rightarrow> real" where
  "min_x cluster = py_min (map box_x cluster)"

definition min_y :: "box list \<Rightarrow> real" where
  "min_y cluster = py_min (map box_y cluster)"

definition max_x1 :: "box list \<Rightarrow> real" where
  "max_x1 cluster = py_max (map (\<lambda>b. fl (box_x b + box_w b)) cluster)"

definition max_y1 :: "box list \<Rightarrow> real" where
  "max_y1 cluster = py_max (map (\<lambda>b. fl (box_y b + box_h b)) cluster)"

text \<open>Line 168: the width and the height are double differences.\<close>

definition merge_cluster :: "nat \<Rightarrow> box list \<Rightarrow> merged_box" where
  "merge_cluster i cluster =
     \<lparr>box_x = min_x cluster, box_y = min_y cluster,
      box_w = fl (max_x1 cluster - min_x cluster), box_h = fl (max_y1 cluster - min_y cluster),
      cluster_id = i + 1\<rparr>"

definition cluster_and_merge_boxes :: "box list \<Rightarrow> real \<Rightarrow> real \<Rightarrow> merged_box list" where
  "cluster_and_merge_boxes boxes page_width page_height =
     (if boxes = [] then []
      else map (\<lambda>(i, cluster). merge_cluster i cluster)
             (enumerate 0 (cleaned_clusters boxes page_width page_height)))"

subsection \<open>Coordinate parsing (\<^verbatim>\<open>_extract_raw_reference_boxes\<close>, \<^verbatim>\<open>_get_page_dimensions\<close>)\<close>

text \<open>
  The markup file is seen through what the XML library returns for it: the
  \<^verbatim>\<open>coords\<close> attribute (\<open>None\<close> when absent) of each element found by the two
  \<^verbatim>\<open>findall\<close> queries for \<^verbatim>\<open>biblStruct\<close>, and the attributes \<^verbatim>\<open>n\<close>, \<^verbatim>\<open>lrx\<close>,
  \<^verbatim>\<open>lry\<close> of each \<^verbatim>\<open>surface\<close> element. A file that \<^verbatim>\<open>ET.parse\<close> rejects is \<open>None\<close>.
\<close>

record surface =
  surface_n :: "string option"
  surface_lrx :: "string option"
  surface_lry :: "string option"

record tei_doc =
  back_bibl_structs :: "string option list"
  all_bibl_structs :: "string option list"
  surface_nodes :: "surface list"

datatype exn = ValueError | TypeError | OSError string

text \<open>\<^verbatim>\<open>str.split(sep)\<close> for a one-character separator: empty pieces are kept.\<close>

fun split_on :: "char \<Rightarrow> string \<Rightarrow> string list" where
  "split_on sep [] = [[]]"
| "split_on sep (c # cs) =
     (if c = sep then [] # split_on sep cs
      else (case split_on sep cs of [] \<Rightarrow> [[c]] | p # ps \<Rightarrow> (c # p) # ps))"

text \<open>
  The built-ins \<^verbatim>\<open>int()\<close> and \<^verbatim>\<open>float()\<close> on a string are parameters \<open>pint\<close> and
  \<open>pfloat\<close> of the parser: \<open>None\<close> stands for \<^verbatim>\<open>ValueError\<close>. Line 91 evaluates the
  five conversions from left to right; the first that raises ends the evaluation.
\<close>

definition parse_fields ::
  "(string \<Rightarrow> int option) \<Rightarrow> (string \<Rightarrow> real option) \<Rightarrow> string list \<Rightarrow> exn + (int \<times> box)" where
  "parse_fields pint pfloat parts =
     (case pint (parts ! 0) of None \<Rightarrow> Inl ValueError | Some p \<Rightarrow>
     (case pfloat (parts ! 1) of None \<Rightarrow> Inl ValueError | Some x \<Rightarrow>
     (case pfloat (parts ! 2) of None \<Rightarrow> Inl ValueError | Some y \<Rightarrow>
     (case pfloat (parts ! 3) of None \<Rightarrow> Inl ValueError | Some w \<Rightarrow>
     (case pfloat (parts ! 4) of None \<Rightarrow> Inl ValueError | Some h \<Rightarrow>
        Inr (p, \<lparr>box_x = x, box_y = y, box_w = w, box_h = h\<rparr>))))))"

text \<open>
  \<^verbatim>\<open>boxes_by_page\<close> is a dictionary from page number to the list of its boxes, kept
  here as an association list in insertion order; \<open>add_box\<close> is
  \<^verbatim>\<open>boxes_by_page[p].append(b)\<close> on a \<^verbatim>\<open>defaultdict(list)\<close>.
\<close>

type_synonym boxes_by_page = "(int \<times> box list) list"

fun add_box :: "int \<Rightarrow> box \<Rightarrow> boxes_by_page \<Rightarrow> boxes_by_page" where
  "add_box p b [] = [(p, [b])]"
| "add_box p b ((q, bs) # rest) =
     (if q = p then (q, bs @ [b]) # rest else (q, bs) # add_box p b rest)"

text \<open>The inner loop of lines 88-93 over the groups of one \<^verbatim>\<open>coords\<close> attribute.\<close>

fun parse_groups ::
  "(string \<Rightarrow> int option) \<Rightarrow> (string \<Rightarrow> real option) \<Rightarrow> string list \<Rightarrow> boxes_by_page
     \<Rightarrow> exn + boxes_by_page" where
  "parse_groups pint pfloat [] m = Inr m"
| "parse_groups pint pfloat (g # gs) m =
     (let parts = split_on CHR '','' g in
      if length parts = 5
      then (case parse_fields pint pfloat parts of
              Inl e \<Rightarrow> Inl e
            | Inr (p, b) \<Rightarrow> parse_groups pint pfloat gs (add_box p b m))
      else parse_groups pint pfloat gs m)"

text \<open>
  The outer loop of lines 85-93 over the reference elements; an absent or empty
  \<^verbatim>\<open>coords\<close> attribute is skipped by the test of line 87.
\<close>

fun parse_items ::
  "(string \<Rightarrow> int option) \<Rightarrow> (string \<Rightarrow> real option) \<Rightarrow> string option list \<Rightarrow> boxes_by_page
     \<Rightarrow> exn + boxes_by_page" where
  "parse_items pint pfloat [] m = Inr m"
| "parse_items pint pfloat (item # items) m =
     (case item of
        None \<Rightarrow> parse_items pint pfloat items m
      | Some coords_str \<Rightarrow>
          if coords_str = [] then parse_items pint pfloat items m
          else (case parse_groups pint pfloat (split_on CHR '';'' coords_str) m of
                  Inl e \<Rightarrow> Inl e
                | Inr m' \<Rightarrow> parse_items pint pfloat items m'))"

text \<open>
  The whole body is inside \<^verbatim>\<open>try\<close> with \<^verbatim>\<open>except Exception: return {}\<close>: an
  exception raised anywhere, also after boxes have been collected, gives the empty
  dictionary.
\<close>

definition extract_raw_reference_boxes ::
  "(string \<Rightarrow> int option) \<Rightarrow> (string \<Rightarrow> real option) \<Rightarrow> tei_doc option \<Rightarrow> boxes_by_page" where
  "extract_raw_reference_boxes pint pfloat xml =
     (case xml of
        None \<Rightarrow> []
      | Some doc \<Rightarrow>
          let ref_items = back_bibl_structs doc;
              ref_items = (if ref_items = [] then all_bibl_structs doc else ref_items)
          in if ref_items = [] then []
             else (case parse_items pint pfloat ref_items [] of
                     Inl e \<Rightarrow> []
                   | Inr boxes_by_page \<Rightarrow> boxes_by_page))"

text \<open>
  One \<^verbatim>\<open>surface\<close> element in \<^verbatim>\<open>_get_page_dimensions\<close>: \<^verbatim>\<open>int(None)\<close> raises
  \<^verbatim>\<open>TypeError\<close>, an absent \<^verbatim>\<open>lrx\<close> or \<^verbatim>\<open>lry\<close> defaults to \<open>0\<close>, and both exceptions
  are caught per element (\<^verbatim>\<open>continue\<close>).
\<close>

definition parse_surface ::
  "(string \<Rightarrow> int option) \<Rightarrow> (string \<Rightarrow> real option) \<Rightarrow> surface \<Rightarrow> exn + (int \<times> real \<times> real)" where
  "parse_surface pint pfloat s =
     (case surface_n s of None \<Rightarrow> Inl TypeError | Some n \<Rightarrow>
     (case pint n of None \<Rightarrow> Inl ValueError | Some page_num \<Rightarrow>
     (case (case surface_lrx s of None \<Rightarrow> Some 0 | Some v \<Rightarrow> pfloat v) of
        None \<Rightarrow> Inl ValueError | Some width \<Rightarrow>
     (case (case surface_lry s of None \<Rightarrow> Some 0 | Some v \<Rightarrow> pfloat v) of
        None \<Rightarrow> Inl ValueError | Some height \<Rightarrow>
        Inr (page_num, width, height)))))"

fun page_dimensions_loop ::
  "(string \<Rightarrow> int option) \<Rightarrow> (string \<Rightarrow> real option) \<Rightarrow> surface list \<Rightarrow> (int \<rightharpoonup> real \<times> real)
     \<Rightarrow> (int \<rightharpoonup> real \<times> real)" where
  "page_dimensions_loop pint pfloat [] dims = dims"
| "page_dimensions_loop pint pfloat (s # ss) dims =
     (case parse_surface pint pfloat s of
        Inl e \<Rightarrow> page_dimensions_loop pint pfloat ss dims
      | Inr (page_num, width, height) \<Rightarrow>
          if width > 0 \<and> height > 0
          then page_dimensions_loop pint pfloat ss (dims(page_num \<mapsto> (width, height)))
          else page_dimensions_loop pint pfloat ss dims)"

definition get_page_dimensions ::
  "(string \<Rightarrow> int option) \<Rightarrow> (string \<Rightarrow> real option) \<Rightarrow> tei_doc option \<Rightarrow> (int \<rightharpoonup> real \<times> real)" where
  "get_page_dimensions pint pfloat xml =
     (case xml of
        None \<Rightarrow> Map.empty
      | Some doc \<Rightarrow> page_dimensions_loop pint pfloat (surface_nodes doc) Map.empty)"

subsection \<open>Final coordinates (\<^verbatim>\<open>_calculate_final_coordinates\<close>)\<close>

text \<open>
  An entry of \<^verbatim>\<open>final_pymupdf_coords\<close> is the tuple \<open>(p, x0, y0, x1, y1)\<close>. The pages
  are visited in ascending order (\<^verbatim>\<open>sorted(boxes_by_page.items())\<close>; the keys of a
  dictionary are distinct, so the order of the tuples is the order of the keys).
\<close>

type_synonym final_coord = "int \<times> real \<times> real \<times> real \<times> real"

definition region_coord :: "int \<Rightarrow> merged_box \<Rightarrow> final_coord" where
  "region_coord page_num b =
     (page_num, box_x b, box_y b, box_x b + box_w b, box_y b + box_h b)"

definition calculate_final_coordinates ::
  "(string \<Rightarrow> int option) \<Rightarrow> (string \<Rightarrow> real option) \<Rightarrow> tei_doc option \<Rightarrow> final_coord list" where
  "calculate_final_coordinates pint pfloat xml =
     (let boxes_by_page = extract_raw_reference_boxes pint pfloat xml in
      if boxes_by_page = [] then []
      else
        let page_dimensions = get_page_dimensions pint pfloat xml in
        concat (map (\<lambda>(page_num, boxes).
                  let (width, height) =
                        (case page_dimensions page_num of None \<Rightarrow> (595, 842) | Some d \<Rightarrow> d);
                      merged_boxes = cluster_and_merge_boxes boxes width height
                  in map (region_coord page_num) merged_boxes)
                (sort_key fst boxes_by_page)))"


subsection \<open>Drawing and the redaction job (\<^verbatim>\<open>_draw_rects_and_save\<close>, \<^verbatim>\<open>process\<close>)\<close>

text \<open>
  \<^verbatim>\<open>fitz.Rect(x0, y0, x1, y1)\<close>, and \<^verbatim>\<open>Rect + (a, b, c, d)\<close>, which adds the four
  numbers to the four coordinates.
\<close>

record rect =
  rect_x0 :: real
  rect_y0 :: real
  rect_x1 :: real
  rect_y1 :: real

definition rect_add :: "rect \<Rightarrow> real \<times> real \<times> real \<times> real \<Rightarrow> rect" where
  "rect_add r t =
     (case t of (a, b, c, d) \<Rightarrow>
        \<lparr>rect_x0 = rect_x0 r + a, rect_y0 = rect_y0 r + b,
         rect_x1 = rect_x1 r + c, rect_y1 = rect_y1 r + d\<rparr>)"

text \<open>The rectangle of lines 67-68 for one entry of \<^verbatim>\<open>final_pymupdf_coords\<close>.\<close>

definition final_rect :: "final_coord \<Rightarrow> rect" where
  "final_rect c =
     (case c of (p, x0, y0, x1, y1) \<Rightarrow>
        rect_add \<lparr>rect_x0 = x0, rect_y0 = y0, rect_x1 = x1, rect_y1 = y1\<rparr>
          (- DELETION_PADDING, - DELETION_PADDING, DELETION_PADDING, DELETION_PADDING))"

text \<open>
  What the job meets outside itself: whether the PDF exists and what it holds, what
  the XML parser makes of the markup file, and whether \<^verbatim>\<open>shutil.copy\<close>,
  \<^verbatim>\<open>fitz.open\<close>, \<^verbatim>\<open>draw_rect\<close> and \<^verbatim>\<open>save\<close> (with \<^verbatim>\<open>close\<close>) raise (\<open>Some\<close> or
  \<open>Inl\<close> of the exception's text) or succeed. \<^verbatim>\<open>fitz.open\<close> gives the number of pages.
\<close>

record world =
  pdf_path :: string
  pdf_exists :: bool
  pdf_bytes :: string
  xml_file :: "tei_doc option"
  copy_outcome :: "string option"
  open_outcome :: "string + nat"
  draw_outcome :: "int \<Rightarrow> rect \<Rightarrow> string option"
  save_outcome :: "string option"

text \<open>What a job leaves at the output path.\<close>

datatype written = Copied string | Saved "(int \<times> rect) list"

fun string_of_nat :: "nat \<Rightarrow> string" where
  "string_of_nat n =
     (if n < 10 then [char_of (48 + n)]
      else string_of_nat (n div 10) @ [char_of (48 + n mod 10)])"

declare string_of_nat.simps [simp del]

text \<open>
  The loop of lines 63-69: an entry is drawn when \<open>p - 1 < len(doc)\<close>; an exception
  of the PDF library ends the loop.
\<close>

fun draw_loop :: "world \<Rightarrow> nat \<Rightarrow> final_coord list \<Rightarrow> (int \<times> rect) list \<Rightarrow> string + (int \<times> rect) list" where
  "draw_loop wd n [] drawn = Inr drawn"
| "draw_loop wd n (c # cs) drawn =
     (let page_index = fst c - 1 in
      if page_index < int n
      then (case draw_outcome wd page_index (final_rect c) of
              Some e \<Rightarrow> Inl e
            | None \<Rightarrow> draw_loop wd n cs (drawn @ [(page_index, final_rect c)]))
      else draw_loop wd n cs drawn)"

text \<open>The body of the \<^verbatim>\<open>try\<close> of lines 60-72; \<open>Inl\<close> is an exception raised in it.\<close>

definition draw_body :: "world \<Rightarrow> final_coord list \<Rightarrow> string + ((bool \<times> string) \<times> written option)" where
  "draw_body wd coords =
     (case open_outcome wd of
        Inl e \<Rightarrow> Inl e
      | Inr n \<Rightarrow>
          (case draw_loop wd n coords [] of
             Inl e \<Rightarrow> Inl e
           | Inr drawn \<Rightarrow>
               (case save_outcome wd of
                  Some e \<Rightarrow> Inl e
                | None \<Rightarrow>
                    Inr ((True, ''Success ('' @ string_of_nat (length coords) @ '' area(s) covered).''),
                         Some (Saved drawn)))))"

definition draw_rects_and_save :: "world \<Rightarrow> final_coord list \<Rightarrow> (bool \<times> string) \<times> written option" where
  "draw_rects_and_save wd coords =
     (case draw_body wd coords of
        Inl e \<Rightarrow> ((False, ''An error occurred during PDF processing: '' @ e), None)
      | Inr r \<Rightarrow> r)"

text \<open>
  \<^verbatim>\<open>process\<close>, lines 35-42. The call of \<^verbatim>\<open>shutil.copy\<close> is not inside any \<^verbatim>\<open>try\<close>:
  when it raises, the exception leaves \<^verbatim>\<open>process\<close> (\<open>Inl\<close>).
\<close>

definition process ::
  "(string \<Rightarrow> int option) \<Rightarrow> (string \<Rightarrow> real option) \<Rightarrow> world
     \<Rightarrow> (exn + (bool \<times> string)) \<times> written option" where
  "process pint pfloat wd =
     (if \<not> pdf_exists wd
      then (Inr (False, ''Corresponding PDF not found at '' @ [CHR 0x27] @ pdf_path wd @ [CHR 0x27]), None)
      else
        let final_pymupdf_coords = calculate_final_coordinates pint pfloat (xml_file wd) in
        if final_pymupdf_coords = []
        then (case copy_outcome wd of
                Some e \<Rightarrow> (Inl (OSError e), None)
              | None \<Rightarrow> (Inr (True, ''No references found; original file copied.''),
                         Some (Copied (pdf_bytes wd))))
        else (case draw_rects_and_save wd final_pymupdf_coords of
                (r, out) \<Rightarrow> (Inr r, out)))"

subsection \<open>The extraction job (\<^verbatim>\<open>_get_raw_xml_from_grobid\<close>)\<close>

datatype raised = RequestException string | OtherException string

datatype response = Response nat string

record grobid_world =
  open_pdf_outcome :: "string option"
  post_outcome :: "raised + response"
  write_xml_outcome :: "string option"

text \<open>The body of the \<^verbatim>\<open>try\<close> of lines 242-252; the second component is the file written.\<close>

definition grobid_body :: "grobid_world \<Rightarrow> raised + ((bool \<times> string) \<times> string option)" where
  "grobid_body gw =
     (case open_pdf_outcome gw of
        Some e \<Rightarrow> Inl (OtherException e)
      | None \<Rightarrow>
          (case post_outcome gw of
             Inl e \<Rightarrow> Inl e
           | Inr (Response status_code content) \<Rightarrow>
               if status_code = 200
               then (case write_xml_outcome gw of
                       Some e \<Rightarrow> Inl (OtherException e)
                     | None \<Rightarrow> Inr ((True, ''Success''), Some content))
               else Inr ((False, ''GROBID returned status '' @ string_of_nat status_code), None)))"

definition get_raw_xml_from_grobid :: "grobid_world \<Rightarrow> (exn + (bool \<times> string)) \<times> string option" where
  "get_raw_xml_from_grobid gw =
     (case grobid_body gw of
        Inl (RequestException e) \<Rightarrow> (Inr (False, ''Request Error: '' @ e), None)
      | Inl (OtherException e) \<Rightarrow> (Inr (False, ''An unexpected error occurred: '' @ e), None)
      | Inr (r, out) \<Rightarrow> (Inr r, out))"

subsection \<open>Decimal literals\<close>

text \<open>
  Instances of \<^verbatim>\<open>int()\<close> and \<^verbatim>\<open>float()\<close> for concrete inputs: they read an optional
  sign and decimal digits (with an optional fraction for \<open>dec_float\<close>), on which they
  agree with the built-ins, and are \<open>None\<close> on every other string.
\<close>

fun digits_value :: "nat \<Rightarrow> string \<Rightarrow> nat option" where
  "digits_value acc [] = Some acc"
| "digits_value acc (c # cs) =
     (let d = (of_char c :: nat) in
      if 48 \<le> d \<and> d \<le> 57 then digits_value (10 * acc + (d - 48)) cs else None)"

definition dec_nat :: "string \<Rightarrow> nat option" where
  "dec_nat s = (if s = [] then None else digits_value 0 s)"

definition dec_int :: "string \<Rightarrow> int option" where
  "dec_int s =
     (case s of
        [] \<Rightarrow> None
      | c # r \<Rightarrow>
          if c = CHR ''-'' then map_option (\<lambda>n. - int n) (dec_nat r)
          else if c = CHR ''+'' then map_option int (dec_nat r)
          else map_option int (dec_nat s))"

definition dec_unsigned :: "string \<Rightarrow> real option" where
  "dec_unsigned s =
     (case split_on CHR ''.'' s of
        [a] \<Rightarrow> map_option real (dec_nat a)
      | [a, b] \<Rightarrow>
          if a = [] \<and> b = [] then None
          else (case (digits_value 0 a, digits_value 0 b) of
                  (Some i, Some f) \<Rightarrow> Some (real i + real f / 10 ^ length b)
                | _ \<Rightarrow> None)
      | _ \<Rightarrow> None)"

definition dec_float :: "string \<Rightarrow> real option" where
  "dec_float s =
     (case s of
        [] \<Rightarrow> None
      | c # r \<Rightarrow>
          if c = CHR ''-'' then map_option uminus (dec_unsigned r)
          else if c = CHR ''+'' then dec_unsigned r
          else dec_unsigned s)"

subsection \<open>Positions and clusters\<close>

text \<open>
  For a list of clusters, the number of the cluster that holds position \<open>i\<close> of their
  concatenation.
\<close>

fun cluster_index :: "'a list list \<Rightarrow> nat \<Rightarrow> nat" where
  "cluster_index [] i = 0"
| "cluster_index (c # cs) i =
     (if i < length c then 0 else Suc (cluster_index cs (i - length c)))"

text \<open>
  The clusters of \<open>prev # bs\<close> in closed form: a new cluster starts at each element whose
  key exceeds the key of its predecessor by more than \<open>thr\<close>. Both loops of the code
  compute it, one on \<open>box_x\<close> and one on \<open>box_y\<close>.
\<close>

fun chain_groups :: "('a \<Rightarrow> real) \<Rightarrow> real \<Rightarrow> 'a \<Rightarrow> 'a list \<Rightarrow> 'a list list" where
  "chain_groups key thr prev [] = [[prev]]"
| "chain_groups key thr prev (b # bs) =
     (if key b - key prev > thr then [prev] # chain_groups key thr b bs
      else (prev # hd (chain_groups key thr b bs)) # tl (chain_groups key thr b bs))"

text \<open>A box is stored under a page of \<^verbatim>\<open>boxes_by_page\<close>.\<close>

definition stored :: "boxes_by_page \<Rightarrow> int \<Rightarrow> box \<Rightarrow> bool" where
  "stored m q b \<longleftrightarrow> (\<exists>bs. (q, bs) \<in> set m \<and> b \<in> set bs)"

subsection \<open>Example data\<close>

definition ex_box :: "real \<Rightarrow> real \<Rightarrow> box" where
  "ex_box x y = \<lparr>box_x = x, box_y = y, box_w = 10, box_h = 5\<rparr>"

text \<open>Two boxes in the header zone, followed on the page by a box far to the right.\<close>

definition ex_header_pair :: "box list" where
  "ex_header_pair = [ex_box 50 100, ex_box 60 112]"

definition ex_page :: "box list" where
  "ex_page = [ex_box 50 100, ex_box 60 112, ex_box 300 100]"

text \<open>Five boxes at a spacing of 12 and one stray box 500 below the last, listed first.\<close>

definition ex_column :: "box list" where
  "ex_column = [ex_box 50 648, ex_box 50 100, ex_box 50 112, ex_box 50 124, ex_box 50 136,
                ex_box 50 148]"









text \<open>
  Markup documents: one reference with a single well-formed group; the same followed by
  a group whose second field is not a number; one group with page number 0; a group on
  page 0 followed by a group on page 2; no reference element at all.
\<close>

definition ex_doc_malformed_number :: tei_doc where
  "ex_doc_malformed_number = \<lparr>back_bibl_structs = [Some ''1,10,20,30,40;1,x,20,30,40''],
                 all_bibl_structs = [], surface_nodes = []\<rparr>"

definition ex_doc_good :: tei_doc where
  "ex_doc_good = \<lparr>back_bibl_structs = [Some ''1,10,20,30,40''],
                 all_bibl_structs = [], surface_nodes = []\<rparr>"

definition ex_doc_page0 :: tei_doc where
  "ex_doc_page0 = \<lparr>back_bibl_structs = [Some ''0,10,20,30,40''],
                 all_bibl_structs = [], surface_nodes = []\<rparr>"

definition ex_doc_two_pages :: tei_doc where
  "ex_doc_two_pages = \<lparr>back_bibl_structs = [Some ''0,10,20,30,40;2,11,21,31,41''],
                 all_bibl_structs = [], surface_nodes = []\<rparr>"

definition ex_doc_no_refs :: tei_doc where
  "ex_doc_no_refs = \<lparr>back_bibl_structs = [], all_bibl_structs = [], surface_nodes = []\<rparr>"

text \<open>
  Worlds of the redaction job: every library call succeeds; the same with a markup file
  without references; the same where \<^verbatim>\<open>shutil.copy\<close> raises.
\<close>

definition ex_world :: world where
  "ex_world = \<lparr>pdf_path = ''pdf_source/paper.pdf'', pdf_exists = True, pdf_bytes = ''%PDF-1.7'',
     xml_file = Some ex_doc_good, copy_outcome = None, open_outcome = Inr 3,
     draw_outcome = (\<lambda>page_index r. None), save_outcome = None\<rparr>"

definition ex_world_no_refs :: world where
  "ex_world_no_refs = ex_world\<lparr>xml_file := Some ex_doc_no_refs\<rparr>"

definition ex_world_copy_fails :: world where
  "ex_world_copy_fails =
     ex_world_no_refs\<lparr>copy_outcome := Some ''[Errno 13] Permission denied''\<rparr>"

section \<open>Properties\<close>

subsection \<open>Double rounding\<close>

lemma rne_of_int: "rne (of_int n) = n"
  by (simp add: rne_def)





text \<open>Integers below \<open>2^53\<close> are doubles.\<close>

lemma fl_of_nat:
  assumes "n < 2 ^ 53"
  shows "fl (real n) = real n"
proof (cases "n = 0")
  case True
  then show ?thesis by (simp add: fl_def)
next
  case False
  define e where "e = \<lfloor>log 2 \<bar>real n\<bar>\<rfloor>"
  have n1: "1 \<le> real n" using False by simp
  have an: "\<bar>real n\<bar> = real n" by simp
  have "0 \<le> log 2 (real n)" using n1 by simp
  then have e0: "0 \<le> e" unfolding e_def an by simp
  have "real n < real (2 ^ 53)" using assms by (simp only: of_nat_less_iff)
  then have "real n < 2 ^ 53" by simp
  moreover have "(2::real) powr real 53 = 2 ^ 53" by (rule powr_realpow) simp
  ultimately have "real n < 2 powr real 53" by simp
  then have "log 2 (real n) < real 53" using n1 by (subst log_less_iff) simp_all
  then have "log 2 (real n) < of_int 53" by simp
  then have "e < 53" unfolding e_def an by (simp only: floor_less_iff)
  then have e52: "e \<le> 52" by simp
  define j where "j = nat (52 - e)"
  have je: "int j = 52 - e" using e52 by (simp add: j_def)
  define u :: real where "u = 2 powr of_int (e - 52)"
  have f: "fl (real n) = of_int (rne (real n / u)) * u"
    using False by (simp add: fl_def u_def e_def Let_def)
  have "real_of_int (e - 52) = - real j" using je by simp
  then have "u = 2 powr (- real j)" unfolding u_def by (rule arg_cong)
  also have "\<dots> = 1 / 2 powr real j" by (simp only: powr_minus_divide)
  also have "(2::real) powr real j = 2 ^ j" by (rule powr_realpow) simp
  finally have uv: "u = 1 / 2 ^ j" .
  have "real n / u = of_int (int n * 2 ^ j)" unfolding uv by simp
  then have r: "rne (real n / u) = int n * 2 ^ j" by (simp only: rne_of_int)
  have "fl (real n) = of_int (int n * 2 ^ j) * u" unfolding f r ..
  then show ?thesis by (simp add: uv)
qed

lemma fl_numeral: "numeral w < (2::nat) ^ 53 \<Longrightarrow> fl (numeral w) = numeral w"
  using fl_of_nat[of "numeral w"] by simp

subsection \<open>The two loops and their closed form\<close>

lemma chain_groups_nonempty: "chain_groups key thr prev bs \<noteq> []"
  by (cases bs) auto

lemma chain_groups_hd_nonempty: "hd (chain_groups key thr prev bs) \<noteq> []"
  by (cases bs) auto

lemma chain_groups_no_empty: "[] \<notin> set (chain_groups key thr prev bs)"
proof (induction bs arbitrary: prev)
  case Nil
  show ?case by simp
next
  case (Cons b bs)
  have "set (tl (chain_groups key thr b bs)) \<subseteq> set (chain_groups key thr b bs)"
    by (cases "chain_groups key thr b bs") auto
  with Cons[of b] show ?case by auto
qed

lemma chain_groups_concat: "concat (chain_groups key thr prev bs) = prev # bs"
proof (induction bs arbitrary: prev)
  case Nil
  show ?case by simp
next
  case (Cons b bs)
  obtain c cs where G: "chain_groups key thr b bs = c # cs"
    using chain_groups_nonempty[of key thr b bs] by (cases "chain_groups key thr b bs") auto
  from Cons[of b] G show ?case by auto
qed

lemma chain_groups_index:
  "Suc i < length (prev # bs) \<Longrightarrow>
     (cluster_index (chain_groups key thr prev bs) (Suc i)
        \<noteq> cluster_index (chain_groups key thr prev bs) i)
     = (key ((prev # bs) ! Suc i) - key ((prev # bs) ! i) > thr)"
proof (induction bs arbitrary: prev i)
  case Nil
  then show ?case by simp
next
  case (Cons b bs)
  obtain c cs where G: "chain_groups key thr b bs = c # cs"
    using chain_groups_nonempty[of key thr b bs] by (cases "chain_groups key thr b bs") auto
  have cne: "c \<noteq> []" using chain_groups_hd_nonempty[of key thr b bs] G by simp
  show ?case
  proof (cases i)
    case 0
    show ?thesis using 0 G cne by auto
  next
    case (Suc j)
    have j: "Suc j < length (b # bs)" using Cons.prems Suc by simp
    have IH: "(cluster_index (c # cs) (Suc j) \<noteq> cluster_index (c # cs) j)
       = (key ((b # bs) ! Suc j) - key ((b # bs) ! j) > thr)"
      using Cons.IH[OF j] G by simp
    have shift1: "\<And>k. cluster_index ([prev] # c # cs) (Suc k) = Suc (cluster_index (c # cs) k)"
      by simp
    have shift2: "\<And>k. cluster_index ((prev # c) # cs) (Suc k) = cluster_index (c # cs) k"
      by simp
    show ?thesis
    proof (cases "key b - key prev > thr")
      case True
      then have E: "chain_groups key thr prev (b # bs) = [prev] # c # cs" using G by simp
      show ?thesis unfolding E Suc using IH shift1 by (simp del: cluster_index.simps)
    next
      case False
      then have E: "chain_groups key thr prev (b # bs) = (prev # c) # cs" using G by simp
      show ?thesis unfolding E Suc using IH shift2 by (simp del: cluster_index.simps)
    qed
  qed
qed

lemma raw_cluster_loop_acc:
  "raw_cluster_loop thr prev bs cur acc = acc @ raw_cluster_loop thr prev bs cur []"
proof (induction bs arbitrary: prev cur acc)
  case Nil
  show ?case by simp
next
  case (Cons b bs)
  show ?case
  proof (cases "box_x b - box_x prev > thr")
    case True
    have "raw_cluster_loop thr b bs [b] (acc @ [cur]) = (acc @ [cur]) @ raw_cluster_loop thr b bs [b] []"
      by (rule Cons.IH)
    moreover have "raw_cluster_loop thr b bs [b] ([] @ [cur]) = ([] @ [cur]) @ raw_cluster_loop thr b bs [b] []"
      by (rule Cons.IH)
    ultimately show ?thesis using True by simp
  next
    case False
    then show ?thesis using Cons.IH[of b "cur @ [b]" acc] by simp
  qed
qed



lemma sub_cluster_loop_acc:
  "sub_cluster_loop thr prev bs cur acc = acc @ sub_cluster_loop thr prev bs cur []"
proof (induction bs arbitrary: prev cur acc)
  case Nil
  show ?case by simp
next
  case (Cons b bs)
  show ?case
  proof (cases "box_y b - box_y prev > thr")
    case True
    have "sub_cluster_loop thr b bs [b] (acc @ [cur]) = (acc @ [cur]) @ sub_cluster_loop thr b bs [b] []"
      by (rule Cons.IH)
    moreover have "sub_cluster_loop thr b bs [b] ([] @ [cur]) = ([] @ [cur]) @ sub_cluster_loop thr b bs [b] []"
      by (rule Cons.IH)
    ultimately show ?thesis using True by simp
  next
    case False
    then show ?thesis using Cons.IH[of b "cur @ [b]" acc] by simp
  qed
qed

lemma sub_cluster_loop_chain:
  "sub_cluster_loop thr prev bs (pre @ [prev]) [] =
     (pre @ hd (chain_groups box_y thr prev bs)) # tl (chain_groups box_y thr prev bs)"
proof (induction bs arbitrary: prev pre)
  case Nil
  show ?case by simp
next
  case (Cons b bs)
  show ?case
  proof (cases "box_y b - box_y prev > thr")
    case True
    have "sub_cluster_loop thr b bs [b] [pre @ [prev]]
            = [pre @ [prev]] @ sub_cluster_loop thr b bs ([] @ [b]) []"
      using sub_cluster_loop_acc[of thr b bs "[b]" "[pre @ [prev]]"] by simp
    also have "sub_cluster_loop thr b bs ([] @ [b]) [] = chain_groups box_y thr b bs"
      using Cons.IH[of b "[]"] chain_groups_nonempty[of box_y thr b bs] by simp
    finally show ?thesis using True by simp
  next
    case False
    have "sub_cluster_loop thr b bs ((pre @ [prev]) @ [b]) [] =
       ((pre @ [prev]) @ hd (chain_groups box_y thr b bs)) # tl (chain_groups box_y thr b bs)"
      by (rule Cons.IH)
    then show ?thesis using False by simp
  qed
qed

lemma sub_cluster_loop_start:
  "sub_cluster_loop thr b bs [b] [] = chain_groups box_y thr b bs"
  using sub_cluster_loop_chain[of thr b bs "[]"] chain_groups_nonempty[of box_y thr b bs]
  by simp

lemma cluster_loop_raw:
  "cluster_loop thr ph prev bs cur acc =
     acc @ filter (\<lambda>c. c \<noteq> []) (map (\<lambda>c. clean_cluster c ph) (raw_cluster_loop thr prev bs cur []))"
proof (induction bs arbitrary: prev cur acc)
  case Nil
  show ?case by (simp add: append_cleaned_def Let_def)
next
  case (Cons b bs)
  show ?case
  proof (cases "box_x b - box_x prev > thr")
    case True
    have r: "raw_cluster_loop thr b bs [b] [cur] = [cur] @ raw_cluster_loop thr b bs [b] []"
      by (rule raw_cluster_loop_acc)
    show ?thesis using True Cons.IH[of b "[b]" "append_cleaned acc cur ph"] r
      by (simp add: append_cleaned_def Let_def)
  next
    case False
    then show ?thesis using Cons.IH[of b "cur @ [b]" acc] by simp
  qed
qed

lemma cleaned_clusters_raw:
  "cleaned_clusters boxes pw ph =
     filter (\<lambda>c. c \<noteq> []) (map (\<lambda>c. clean_cluster c ph) (raw_clusters boxes pw))"
  by (cases boxes) (simp_all add: cleaned_clusters_def raw_clusters_def cluster_loop_raw)

subsection \<open>Horizontal clustering\<close>





subsection \<open>Cluster cleaning\<close>

lemma max_len_from_first:
  "\<exists>pre post. best # cs = pre @ max_len_from best cs # post
      \<and> (\<forall>c\<in>set pre. length c < length (max_len_from best cs))
      \<and> (\<forall>c\<in>set post. length c \<le> length (max_len_from best cs))"
proof (induction cs arbitrary: best)
  case Nil
  show ?case by (rule exI[of _ "[]"], rule exI[of _ "[]"]) simp
next
  case (Cons c cs)
  define b where "b = (if length c > length best then c else best)"
  define r where "r = max_len_from b cs"
  from Cons[of b] obtain pre post where
    D: "b # cs = pre @ r # post"
    and P: "\<forall>c\<in>set pre. length c < length r"
    and Q: "\<forall>c\<in>set post. length c \<le> length r"
    unfolding r_def by blast
  have R: "max_len_from best (c # cs) = r" by (simp add: r_def b_def)
  have bl: "length b \<le> length r"
  proof (cases pre)
    case Nil
    with D have "b = r" by simp
    then show ?thesis by simp
  next
    case (Cons p ps)
    with D have "p = b" by simp
    with P Cons show ?thesis by auto
  qed
  show ?case
  proof (cases "length c > length best")
    case True
    then have bc: "b = c" by (simp add: b_def)
    have D': "best # c # cs = (best # pre) @ r # post" using D bc by simp
    have "\<forall>c\<in>set (best # pre). length c < length r" using P True bl bc by auto
    with D' Q show ?thesis unfolding R by blast
  next
    case False
    then have bb: "b = best" by (simp add: b_def)
    show ?thesis
    proof (cases pre)
      case Nil
      then have rb: "r = best" and pc: "post = cs" using D bb by auto
      have D': "best # c # cs = [] @ r # (c # cs)" using rb by simp
      have Q': "\<forall>c\<in>set (c # cs). length c \<le> length r"
        using Q False rb pc by auto
      have P': "\<forall>c\<in>set ([] :: 'a list list). length c < length r" by simp
      show ?thesis unfolding R using D' P' Q' by blast
    next
      case (Cons p ps)
      then have pb: "p = best" and cs: "cs = ps @ r # post" using D bb by auto
      have D': "best # c # cs = (best # c # ps) @ r # post" using cs by simp
      have lb: "length best < length r" using P Cons pb by auto
      have "\<forall>c\<in>set (best # c # ps). length c < length r"
        using P Cons lb False by auto
      with D' Q show ?thesis unfolding R by blast
    qed
  qed
qed

lemma positive_gaps_filter:
  "positive_gaps s = filter (\<lambda>g. g > 0) (map2 (\<lambda>a b. box_y b - box_y a) s (tl s))"
  by (induction s rule: positive_gaps.induct) auto

lemma no_positive_gaps_all_equal:
  "sorted (map box_y s) \<Longrightarrow> positive_gaps s = [] \<Longrightarrow> b \<in> set s \<Longrightarrow> box_y b = box_y (hd s)"
proof (induction s arbitrary: b rule: positive_gaps.induct)
  case (1 a c cs)
  have le: "box_y a \<le> box_y c" using "1.prems"(1) by simp
  have ng: "\<not> box_y c > box_y a" using "1.prems"(2) by (auto split: if_splits)
  have eq: "box_y c = box_y a" using le ng by simp
  have pg: "positive_gaps (c # cs) = []" using "1.prems"(2) ng by simp
  have so: "sorted (map box_y (c # cs))" using "1.prems"(1) by simp
  show ?case
  proof (cases "b = a")
    case True then show ?thesis by simp
  next
    case False
    then have "b \<in> set (c # cs)" using "1.prems"(3) by simp
    from "1.IH"(2)[OF ng so pg this] eq show ?thesis by simp
  qed
qed simp_all

lemma sort_key_unchanged_if_no_gaps:
  assumes "positive_gaps (sort_key box_y c) = []"
  shows "sort_key box_y c = c"
proof -
  let ?s = "sort_key box_y c"
  have so: "sorted (map box_y ?s)" by simp
  have all: "\<forall>b\<in>set c. box_y b = box_y (hd ?s)"
    using no_positive_gaps_all_equal[OF so assms] by simp
  then have "map box_y c = replicate (length c) (box_y (hd ?s))"
    by (simp add: map_replicate_const[symmetric] cong: map_cong)
  then have "sorted (map box_y c)" by (simp add: sorted_replicate)
  then show ?thesis by (rule sort_key_id_if_sorted)
qed

lemma median_some: "gaps \<noteq> [] \<Longrightarrow> \<exists>m. median gaps = Some m"
proof -
  assume "gaps \<noteq> []"
  then have sn: "length (sort gaps) \<noteq> 0" by simp
  show ?thesis
  proof (cases "length (sort gaps) mod 2 = 1")
    case True
    then have "median gaps = Some (sort gaps ! (length (sort gaps) div 2))"
      using sn unfolding median_def Let_def by simp
    then show ?thesis by blast
  next
    case False
    then have "median gaps = Some ((sort gaps ! (length (sort gaps) div 2 - 1)
                  + sort gaps ! (length (sort gaps) div 2)) / 2)"
      using sn unfolding median_def Let_def by simp
    then show ?thesis by blast
  qed
qed

lemma clean_cluster_large:
  assumes "3 \<le> length c" and "positive_gaps (sort_key box_y c) \<noteq> []"
  shows "clean_cluster c ph =
     max_len_from (hd (chain_groups box_y (the (median (positive_gaps (sort_key box_y c))) * 4)
                         (hd (sort_key box_y c)) (tl (sort_key box_y c))))
                  (tl (chain_groups box_y (the (median (positive_gaps (sort_key box_y c))) * 4)
                         (hd (sort_key box_y c)) (tl (sort_key box_y c))))"
  using assms
  by (simp add: clean_cluster_def Let_def sub_cluster_loop_start LINE_HEIGHT_MULTIPLIER_def
      chain_groups_nonempty)

lemma clean_cluster_large_no_gaps:
  assumes "3 \<le> length c" and "positive_gaps (sort_key box_y c) = []"
  shows "clean_cluster c ph = c"
  using assms sort_key_unchanged_if_no_gaps[OF assms(2)]
  by (simp add: clean_cluster_def Let_def)

lemma clean_cluster_large_cases:
  assumes "3 \<le> length cluster_boxes"
  shows "sorted (map box_y (sort_key box_y cluster_boxes))
     \<and> mset (sort_key box_y cluster_boxes) = mset cluster_boxes
     \<and> positive_gaps (sort_key box_y cluster_boxes) =
         filter (\<lambda>g. g > 0) (map2 (\<lambda>a b. box_y b - box_y a)
            (sort_key box_y cluster_boxes) (tl (sort_key box_y cluster_boxes)))
     \<and> (positive_gaps (sort_key box_y cluster_boxes) = []
          \<longrightarrow> clean_cluster cluster_boxes page_height = cluster_boxes)
     \<and> (positive_gaps (sort_key box_y cluster_boxes) \<noteq> [] \<longrightarrow>
          (\<exists>m subs pre post.
              median (positive_gaps (sort_key box_y cluster_boxes)) = Some m
            \<and> m = (if odd (length (positive_gaps (sort_key box_y cluster_boxes)))
                   then sort (positive_gaps (sort_key box_y cluster_boxes))
                          ! (length (positive_gaps (sort_key box_y cluster_boxes)) div 2)
                   else (sort (positive_gaps (sort_key box_y cluster_boxes))
                           ! (length (positive_gaps (sort_key box_y cluster_boxes)) div 2 - 1)
                         + sort (positive_gaps (sort_key box_y cluster_boxes))
                           ! (length (positive_gaps (sort_key box_y cluster_boxes)) div 2)) / 2)
            \<and> concat subs = sort_key box_y cluster_boxes
            \<and> [] \<notin> set subs
            \<and> (\<forall>i. Suc i < length cluster_boxes \<longrightarrow>
                  (cluster_index subs (Suc i) \<noteq> cluster_index subs i)
                  = (box_y (sort_key box_y cluster_boxes ! Suc i)
                       - box_y (sort_key box_y cluster_boxes ! i) > m * 4))
            \<and> subs = pre @ clean_cluster cluster_boxes page_height # post
            \<and> (\<forall>c\<in>set pre. length c < length (clean_cluster cluster_boxes page_height))
            \<and> (\<forall>c\<in>set post. length c \<le> length (clean_cluster cluster_boxes page_height))))"
proof -
  let ?s = "sort_key box_y cluster_boxes"
  let ?g = "positive_gaps ?s"
  have sne: "?s \<noteq> []" using assms by (metis length_sort list.size(3) not_numeral_le_zero)
  have hs: "hd ?s # tl ?s = ?s" using sne by simp
  have A: "sorted (map box_y ?s)" by simp
  have B: "mset ?s = mset cluster_boxes" by simp
  have C: "?g = filter (\<lambda>g. g > 0) (map2 (\<lambda>a b. box_y b - box_y a) ?s (tl ?s))"
    by (rule positive_gaps_filter)
  have D: "?g = [] \<longrightarrow> clean_cluster cluster_boxes page_height = cluster_boxes"
    using clean_cluster_large_no_gaps[OF assms] by blast
  have E: "\<exists>m subs pre post.
              median ?g = Some m
            \<and> m = (if odd (length ?g) then sort ?g ! (length ?g div 2)
                   else (sort ?g ! (length ?g div 2 - 1) + sort ?g ! (length ?g div 2)) / 2)
            \<and> concat subs = ?s
            \<and> [] \<notin> set subs
            \<and> (\<forall>i. Suc i < length cluster_boxes \<longrightarrow>
                  (cluster_index subs (Suc i) \<noteq> cluster_index subs i)
                  = (box_y (?s ! Suc i) - box_y (?s ! i) > m * 4))
            \<and> subs = pre @ clean_cluster cluster_boxes page_height # post
            \<and> (\<forall>c\<in>set pre. length c < length (clean_cluster cluster_boxes page_height))
            \<and> (\<forall>c\<in>set post. length c \<le> length (clean_cluster cluster_boxes page_height))"
    if gne: "?g \<noteq> []"
  proof -
    from median_some[OF gne] obtain m where m: "median ?g = Some m" by blast
    have mv: "m = (if odd (length ?g) then sort ?g ! (length ?g div 2)
                   else (sort ?g ! (length ?g div 2 - 1) + sort ?g ! (length ?g div 2)) / 2)"
      using m gne by (auto simp: median_def Let_def odd_iff_mod_2_eq_one split: if_splits)
    let ?subs = "chain_groups box_y (m * 4) (hd ?s) (tl ?s)"
    have r: "clean_cluster cluster_boxes page_height = max_len_from (hd ?subs) (tl ?subs)"
      using clean_cluster_large[OF assms gne, of page_height] m by simp
    have subs_ne: "?subs \<noteq> []" by (rule chain_groups_nonempty)
    from max_len_from_first[of "hd ?subs" "tl ?subs"] obtain pre post where
      dec: "hd ?subs # tl ?subs = pre @ max_len_from (hd ?subs) (tl ?subs) # post"
      and P: "\<forall>c\<in>set pre. length c < length (max_len_from (hd ?subs) (tl ?subs))"
      and Q: "\<forall>c\<in>set post. length c \<le> length (max_len_from (hd ?subs) (tl ?subs))"
      by blast
    have dec': "?subs = pre @ clean_cluster cluster_boxes page_height # post"
      using dec subs_ne r by simp
    have cc: "concat ?subs = ?s" using chain_groups_concat[of box_y "m * 4" "hd ?s" "tl ?s"] hs by simp
    have ne: "[] \<notin> set ?subs" by (rule chain_groups_no_empty)
    have idx: "\<forall>i. Suc i < length cluster_boxes \<longrightarrow>
                  (cluster_index ?subs (Suc i) \<noteq> cluster_index ?subs i)
                  = (box_y (?s ! Suc i) - box_y (?s ! i) > m * 4)"
    proof (intro allI impI)
      fix i assume "Suc i < length cluster_boxes"
      then have "Suc i < length (hd ?s # tl ?s)" using hs by simp
      from chain_groups_index[OF this, of box_y "m * 4"] hs
      show "(cluster_index ?subs (Suc i) \<noteq> cluster_index ?subs i)
                  = (box_y (?s ! Suc i) - box_y (?s ! i) > m * 4)" by simp
    qed
    show ?thesis using m mv cc ne idx dec' P Q unfolding r by blast
  qed
  show ?thesis using A B C D E by blast
qed
















lemma cluster_and_merge_boxes_eq:
  "cluster_and_merge_boxes boxes pw ph =
     map (\<lambda>(i, cluster). merge_cluster i cluster) (enumerate 0 (cleaned_clusters boxes pw ph))"
  by (simp add: cluster_and_merge_boxes_def cleaned_clusters_def)



lemma clean_cluster_two:
  "length c = 2 \<Longrightarrow>
     clean_cluster c ph = filter (\<lambda>b. \<not> (box_y b < 120 \<or> box_y b > ph - 80)) c"
  by (simp add: clean_cluster_def is_in_header_def is_in_footer_def
      VERTICAL_Y_THRESHOLD_TOP_def VERTICAL_Y_THRESHOLD_BOTTOM_def)


text \<open>
  Claim C3. For a cluster of exactly two boxes, a box is dropped if and only if its \<open>y\<close>
  is in the header zone (\<open>y < 120\<close>) or in the footer zone (\<open>y > page_height - 80\<close>).
  When both boxes are in a zone the cleaned cluster is empty, it is not appended to the
  clusters, and the regions of the page are those of its other clusters: the cluster
  contributes no region.
\<close>

theorem clean_cluster_of_two_drops_header_footer:
  assumes "length c = 2"
  shows "clean_cluster c page_height
           = filter (\<lambda>b. \<not> (box_y b < 120 \<or> box_y b > page_height - 80)) c
     \<and> ((\<forall>b\<in>set c. box_y b < 120 \<or> box_y b > page_height - 80) \<longrightarrow>
            clean_cluster c page_height = []
          \<and> append_cleaned clusters c page_height = clusters
          \<and> (raw_clusters boxes page_width = pre @ c # post \<longrightarrow>
               cluster_and_merge_boxes boxes page_width page_height =
                 map (\<lambda>(i, cluster). merge_cluster i cluster)
                   (enumerate 0 (filter (\<lambda>c. c \<noteq> [])
                      (map (\<lambda>c. clean_cluster c page_height) (pre @ post))))))"
proof -
  have A: "clean_cluster c page_height
           = filter (\<lambda>b. \<not> (box_y b < 120 \<or> box_y b > page_height - 80)) c"
    by (rule clean_cluster_two[OF assms])
  have B: "clean_cluster c page_height = []"
    if "\<forall>b\<in>set c. box_y b < 120 \<or> box_y b > page_height - 80"
    unfolding A using that by (simp add: filter_empty_conv)
  have C: "append_cleaned clusters c page_height = clusters"
    if "\<forall>b\<in>set c. box_y b < 120 \<or> box_y b > page_height - 80"
    using B[OF that] by (simp add: append_cleaned_def)
  have D: "cluster_and_merge_boxes boxes page_width page_height =
                 map (\<lambda>(i, cluster). merge_cluster i cluster)
                   (enumerate 0 (filter (\<lambda>c. c \<noteq> [])
                      (map (\<lambda>c. clean_cluster c page_height) (pre @ post))))"
    if "\<forall>b\<in>set c. box_y b < 120 \<or> box_y b > page_height - 80"
      and "raw_clusters boxes page_width = pre @ c # post"
    using B[OF that(1)] that(2)
    by (simp add: cluster_and_merge_boxes_eq cleaned_clusters_raw)
  show ?thesis using A B C D by blast
qed


theorem clean_cluster_of_two_drops_header_footer_witness:
  "length ex_header_pair = 2
   \<and> clean_cluster ex_header_pair 842 = []
   \<and> raw_clusters ex_page 595 = [] @ ex_header_pair # [[ex_box 300 100]]
   \<and> cluster_and_merge_boxes ex_page 595 842
       = [\<lparr>box_x = 300, box_y = 100, box_w = 10, box_h = 5, cluster_id = 1\<rparr>]"
proof -
  have h: "length ex_header_pair = 2" by (simp add: ex_header_pair_def)
  have z: "\<forall>b\<in>set ex_header_pair. box_y b < 120 \<or> box_y b > 842 - 80"
    by (simp add: ex_header_pair_def ex_box_def)
  have r: "raw_clusters ex_page 595 = [] @ ex_header_pair # [[ex_box 300 100]]"
    by (simp add: raw_clusters_def ex_page_def ex_header_pair_def ex_box_def
        HORIZONTAL_THRESHOLD_RATIO_def)
  from clean_cluster_of_two_drops_header_footer
         [OF h, of 842 "[]" ex_page 595 "[]" "[[ex_box 300 100]]"] z r
  have e: "clean_cluster ex_header_pair 842 = []"
    and m: "cluster_and_merge_boxes ex_page 595 842 =
              map (\<lambda>(i, cluster). merge_cluster i cluster)
                (enumerate 0 (filter (\<lambda>c. c \<noteq> [])
                   (map (\<lambda>c. clean_cluster c 842) ([] @ [[ex_box 300 100]]))))"
    by blast+
  have "cluster_and_merge_boxes ex_page 595 842
       = [\<lparr>box_x = 300, box_y = 100, box_w = 10, box_h = 5, cluster_id = 1\<rparr>]"
    unfolding m
    by (simp add: clean_cluster_def merge_cluster_def min_x_def min_y_def max_x1_def max_y1_def
        py_min_def py_max_def ex_box_def fl_numeral)
  with h e r show ?thesis by blast
qed

lemma mset_member_concat: "r \<in> set xss \<Longrightarrow> mset r \<subseteq># mset (concat xss)"
proof (induction xss)
  case Nil
  then show ?case by simp
next
  case (Cons a xss)
  show ?case
  proof (cases "r = a")
    case True
    then show ?thesis by simp
  next
    case False
    then have "mset r \<subseteq># mset (concat xss)" using Cons by simp
    then show ?thesis by (simp add: subset_mset.add_increasing)
  qed
qed


text \<open>
  Claim C10. Cluster cleaning returns boxes of its input only, each at most as often as
  it occurs there (possibly in another order). A cluster of one box or of at least three
  boxes is never cleaned to the empty list, so it is always appended to the clusters and
  gives a region; a non-empty cluster that is cleaned to the empty list has exactly two
  boxes.
\<close>

theorem clean_cluster_sub_multiset_and_only_pairs_vanish:
  "mset (clean_cluster c page_height) \<subseteq># mset c
   \<and> (length c = 1 \<or> 3 \<le> length c \<longrightarrow>
        clean_cluster c page_height \<noteq> []
      \<and> append_cleaned clusters c page_height = clusters @ [clean_cluster c page_height])
   \<and> (c \<noteq> [] \<and> clean_cluster c page_height = [] \<longrightarrow> length c = 2)"
proof -
  have sub: "mset (clean_cluster c page_height) \<subseteq># mset c"
  proof -
    consider "length c \<le> 1" | "length c = 2" | "3 \<le> length c" by linarith
    then show ?thesis
    proof cases
      case 1
      then show ?thesis by (simp add: clean_cluster_def)
    next
      case 2
      then show ?thesis by (simp add: clean_cluster_two)
    next
      case 3
      from clean_cluster_large_cases[OF 3, of page_height] show ?thesis
        by (metis mset_member_concat in_set_conv_decomp subset_mset.order_refl)
    qed
  qed
  have ne: "clean_cluster c page_height \<noteq> []" if "length c = 1 \<or> 3 \<le> length c"
  proof -
    from that consider "length c = 1" | "3 \<le> length c" by blast
    then show ?thesis
    proof cases
      case 1
      then show ?thesis by (auto simp: clean_cluster_def)
    next
      case 2
      then have "c \<noteq> []" by auto
      with clean_cluster_large_cases[OF 2, of page_height] show ?thesis
        by (metis in_set_conv_decomp)
    qed
  qed
  have app: "append_cleaned clusters c page_height = clusters @ [clean_cluster c page_height]"
    if "length c = 1 \<or> 3 \<le> length c"
    using ne[OF that] by (simp add: append_cleaned_def)
  have only2: "length c = 2" if "c \<noteq> []" "clean_cluster c page_height = []"
  proof -
    have "\<not> (length c = 1 \<or> 3 \<le> length c)" using ne that(2) by blast
    moreover have "length c \<noteq> 0" using that(1) by simp
    ultimately show ?thesis by linarith
  qed
  show ?thesis using sub ne app only2 by blast
qed


theorem clean_cluster_sub_multiset_and_only_pairs_vanish_witness:
  "3 \<le> length ex_column
   \<and> clean_cluster ex_column 842 \<noteq> []
   \<and> mset (clean_cluster ex_column 842) \<subseteq># mset ex_column
   \<and> append_cleaned [] ex_column 842 = [] @ [clean_cluster ex_column 842]
   \<and> ex_header_pair \<noteq> [] \<and> clean_cluster ex_header_pair 842 = []
   \<and> length ex_header_pair = 2"
proof -
  have h: "3 \<le> length ex_column" by (simp add: ex_column_def)
  have n: "ex_header_pair \<noteq> []" by (simp add: ex_header_pair_def)
  have e: "clean_cluster ex_header_pair 842 = []"
    by (simp add: clean_cluster_def ex_header_pair_def ex_box_def is_in_header_def
        VERTICAL_Y_THRESHOLD_TOP_def)
  show ?thesis
    using clean_cluster_sub_multiset_and_only_pairs_vanish[of ex_column 842 "[]"]
      clean_cluster_sub_multiset_and_only_pairs_vanish[of ex_header_pair 842 "[]"] h n e
    by blast
qed

subsection \<open>Merging\<close>










subsection \<open>Coordinate parsing\<close>

lemma ex_literals:
  "dec_int ''0'' = Some 0" "dec_int ''1'' = Some 1"
  "dec_float ''10'' = Some 10" "dec_float ''20'' = Some 20"
  "dec_float ''30'' = Some 30" "dec_float ''40'' = Some 40" "dec_float ''x'' = None"
  by (simp_all add: dec_int_def dec_float_def dec_unsigned_def dec_nat_def)

lemma ex_fields:
  "parse_fields dec_int dec_float [''1'', ''10'', ''20'', ''30'', ''40'']
     = Inr (1, \<lparr>box_x = 10, box_y = 20, box_w = 30, box_h = 40\<rparr>)"
  "parse_fields dec_int dec_float [''0'', ''10'', ''20'', ''30'', ''40'']
     = Inr (0, \<lparr>box_x = 10, box_y = 20, box_w = 30, box_h = 40\<rparr>)"
  "parse_fields dec_int dec_float [''1'', ''x'', ''20'', ''30'', ''40''] = Inl ValueError"
  by (simp_all add: parse_fields_def ex_literals)

lemma ex_splits:
  "split_on CHR '';'' ''1,10,20,30,40;1,x,20,30,40'' = [''1,10,20,30,40'', ''1,x,20,30,40'']"
  "split_on CHR '';'' ''1,10,20,30,40'' = [''1,10,20,30,40'']"
  "split_on CHR '';'' ''0,10,20,30,40'' = [''0,10,20,30,40'']"
  "split_on CHR '','' ''1,10,20,30,40'' = [''1'', ''10'', ''20'', ''30'', ''40'']"
  "split_on CHR '','' ''0,10,20,30,40'' = [''0'', ''10'', ''20'', ''30'', ''40'']"
  "split_on CHR '','' ''1,x,20,30,40'' = [''1'', ''x'', ''20'', ''30'', ''40'']"
  by simp_all

lemma ex_malformed_number_boxes:
  "extract_raw_reference_boxes dec_int dec_float (Some ex_doc_malformed_number) = []"
  by (simp add: extract_raw_reference_boxes_def ex_doc_malformed_number_def ex_splits
      ex_fields Let_def del: split_on.simps)

lemma ex_good_boxes: "extract_raw_reference_boxes dec_int dec_float (Some ex_doc_good)
   = [(1, [\<lparr>box_x = 10, box_y = 20, box_w = 30, box_h = 40\<rparr>])]"
  by (simp add: extract_raw_reference_boxes_def ex_doc_good_def ex_splits ex_fields Let_def
      del: split_on.simps)

lemma ex_page0_boxes: "extract_raw_reference_boxes dec_int dec_float (Some ex_doc_page0)
   = [(0, [\<lparr>box_x = 10, box_y = 20, box_w = 30, box_h = 40\<rparr>])]"
  by (simp add: extract_raw_reference_boxes_def ex_doc_page0_def ex_splits ex_fields Let_def
      del: split_on.simps)

lemma parse_groups_skips_wrong_field_count:
  "length (split_on CHR '','' g) \<noteq> 5 \<Longrightarrow>
     parse_groups pint pfloat (g # gs) m = parse_groups pint pfloat gs m"
  by (simp add: Let_def)

text \<open>
  Claim C6. Parsing is to skip each non-conforming group, also one with a malformed
  numeric field, and still parse every conforming group. The code skips a group with a
  wrong field count, but a five-field group with a malformed number raises
  \<^verbatim>\<open>ValueError\<close>, which only the handler around the whole function catches: the boxes
  already collected are lost and the result is the empty dictionary. Here the
  well-formed group \<^verbatim>\<open>1,10,20,30,40\<close> gives a box when it stands alone and none when the
  group \<^verbatim>\<open>1,x,20,30,40\<close> follows it.
\<close>

theorem extract_drops_all_boxes_on_malformed_number:
  "extract_raw_reference_boxes dec_int dec_float (Some ex_doc_good)
     = [(1, [\<lparr>box_x = 10, box_y = 20, box_w = 30, box_h = 40\<rparr>])]
   \<and> extract_raw_reference_boxes dec_int dec_float (Some ex_doc_malformed_number) = []"
  by (simp add: ex_good_boxes ex_malformed_number_boxes)

lemma stored_add_box:
  "stored (add_box p b m) q b' \<Longrightarrow> stored m q b' \<or> (q = p \<and> b' = b)"
  unfolding stored_def
  by (induction p b m rule: add_box.induct) (auto split: if_splits)

lemma parse_fields_box:
  assumes "parse_fields pint pfloat parts = Inr (p, b)"
  shows "pint (parts ! 0) = Some p \<and> pfloat (parts ! 1) = Some (box_x b)
       \<and> pfloat (parts ! 2) = Some (box_y b) \<and> pfloat (parts ! 3) = Some (box_w b)
       \<and> pfloat (parts ! 4) = Some (box_h b)"
  using assms by (auto simp: parse_fields_def split: option.splits)

lemma parse_groups_stored:
  "parse_groups pint pfloat gs m = Inr m' \<Longrightarrow> stored m' q b \<Longrightarrow>
     stored m q b \<or> (\<exists>g\<in>set gs. length (split_on CHR '','' g) = 5
                        \<and> parse_fields pint pfloat (split_on CHR '','' g) = Inr (q, b))"
proof (induction gs arbitrary: m)
  case Nil
  then show ?case by simp
next
  case (Cons g gs)
  show ?case
  proof (cases "length (split_on CHR '','' g) = 5")
    case False
    with Cons.prems have "parse_groups pint pfloat gs m = Inr m'" by (simp add: Let_def)
    from Cons.IH[OF this Cons.prems(2)] show ?thesis by auto
  next
    case True
    with Cons.prems(1) obtain p b0 where
      pf: "parse_fields pint pfloat (split_on CHR '','' g) = Inr (p, b0)"
      and rest: "parse_groups pint pfloat gs (add_box p b0 m) = Inr m'"
      by (auto simp: Let_def split: sum.splits)
    from Cons.IH[OF rest Cons.prems(2)] consider
      "stored (add_box p b0 m) q b" |
      "\<exists>g\<in>set gs. length (split_on CHR '','' g) = 5
                        \<and> parse_fields pint pfloat (split_on CHR '','' g) = Inr (q, b)" by blast
    then show ?thesis
    proof cases
      case 1
      from stored_add_box[OF 1] pf True show ?thesis by auto
    next
      case 2
      then show ?thesis by auto
    qed
  qed
qed

lemma parse_items_stored:
  "parse_items pint pfloat items m = Inr m' \<Longrightarrow> stored m' q b \<Longrightarrow>
     stored m q b \<or> (\<exists>coords_str g. Some coords_str \<in> set items
                        \<and> g \<in> set (split_on CHR '';'' coords_str)
                        \<and> length (split_on CHR '','' g) = 5
                        \<and> parse_fields pint pfloat (split_on CHR '','' g) = Inr (q, b))"
proof (induction items arbitrary: m)
  case Nil
  then show ?case by simp
next
  case (Cons item items)
  show ?case
  proof (cases item)
    case None
    with Cons.prems have "parse_items pint pfloat items m = Inr m'" by simp
    from Cons.IH[OF this Cons.prems(2)] show ?thesis by auto
  next
    case (Some cs)
    show ?thesis
    proof (cases "cs = []")
      case True
      with Some Cons.prems have "parse_items pint pfloat items m = Inr m'" by simp
      from Cons.IH[OF this Cons.prems(2)] show ?thesis by auto
    next
      case False
      with Some Cons.prems(1) obtain m1 where
        g: "parse_groups pint pfloat (split_on CHR '';'' cs) m = Inr m1"
        and rest: "parse_items pint pfloat items m1 = Inr m'"
        by (auto split: sum.splits)
      from Cons.IH[OF rest Cons.prems(2)] consider
        "stored m1 q b" |
        "\<exists>coords_str g. Some coords_str \<in> set items
                        \<and> g \<in> set (split_on CHR '';'' coords_str)
                        \<and> length (split_on CHR '','' g) = 5
                        \<and> parse_fields pint pfloat (split_on CHR '','' g) = Inr (q, b)" by blast
      then show ?thesis
      proof cases
        case 1
        from parse_groups_stored[OF g 1] Some show ?thesis by auto
      next
        case 2
        then show ?thesis by auto
      qed
    qed
  qed
qed

text \<open>
  Claim C9, as the code has it. Every box that coordinate parsing stores under a page
  number comes from a five-field group of a \<^verbatim>\<open>coords\<close> attribute of the reference
  elements used: the page is the integer that \<^verbatim>\<open>int()\<close> returns for the first field of
  that group, and \<open>x\<close>, \<open>y\<close>, \<open>w\<close>, \<open>h\<close> are what \<^verbatim>\<open>float()\<close> returns for its other four
  fields. The parser puts no lower bound on the page.
\<close>

theorem raw_box_page_is_parsed_first_field:
  assumes "(p, boxes) \<in> set (extract_raw_reference_boxes pint pfloat xml)" and "b \<in> set boxes"
  shows "\<exists>doc coords_str g.
           xml = Some doc
         \<and> Some coords_str \<in> set (if back_bibl_structs doc = [] then all_bibl_structs doc
                                    else back_bibl_structs doc)
         \<and> g \<in> set (split_on CHR '';'' coords_str)
         \<and> length (split_on CHR '','' g) = 5
         \<and> pint (split_on CHR '','' g ! 0) = Some p
         \<and> pfloat (split_on CHR '','' g ! 1) = Some (box_x b)
         \<and> pfloat (split_on CHR '','' g ! 2) = Some (box_y b)
         \<and> pfloat (split_on CHR '','' g ! 3) = Some (box_w b)
         \<and> pfloat (split_on CHR '','' g ! 4) = Some (box_h b)"
proof (cases xml)
  case None
  with assms show ?thesis by (simp add: extract_raw_reference_boxes_def)
next
  case (Some doc)
  define items where
    "items = (if back_bibl_structs doc = [] then all_bibl_structs doc else back_bibl_structs doc)"
  from assms(1) Some obtain m' where
    pi: "parse_items pint pfloat items [] = Inr m'" and mem: "(p, boxes) \<in> set m'"
    by (cases "parse_items pint pfloat items []")
       (auto simp: extract_raw_reference_boxes_def Let_def items_def split: if_splits)
  have st: "stored m' p b" using mem assms(2) by (auto simp: stored_def)
  have "\<not> stored [] p b" by (simp add: stored_def)
  with parse_items_stored[OF pi st] obtain coords_str g where
    "Some coords_str \<in> set items" "g \<in> set (split_on CHR '';'' coords_str)"
    "length (split_on CHR '','' g) = 5"
    "parse_fields pint pfloat (split_on CHR '','' g) = Inr (p, b)"
    by auto
  with parse_fields_box[of pint pfloat "split_on CHR '','' g" p b] Some show ?thesis
    unfolding items_def by blast
qed

lemma ex_literals2:
  "dec_int ''2'' = Some 2"
  "dec_float ''11'' = Some 11" "dec_float ''21'' = Some 21"
  "dec_float ''31'' = Some 31" "dec_float ''41'' = Some 41"
  by (simp_all add: dec_int_def dec_float_def dec_unsigned_def dec_nat_def)

lemma ex_fields2:
  "parse_fields dec_int dec_float [''2'', ''11'', ''21'', ''31'', ''41'']
     = Inr (2, \<lparr>box_x = 11, box_y = 21, box_w = 31, box_h = 41\<rparr>)"
  by (simp add: parse_fields_def ex_literals2)

lemma ex_splits2:
  "split_on CHR '';'' ''0,10,20,30,40;2,11,21,31,41'' = [''0,10,20,30,40'', ''2,11,21,31,41'']"
  "split_on CHR '','' ''2,11,21,31,41'' = [''2'', ''11'', ''21'', ''31'', ''41'']"
  by simp_all

lemma ex_two_pages_boxes:
  "extract_raw_reference_boxes dec_int dec_float (Some ex_doc_two_pages)
   = [(0, [\<lparr>box_x = 10, box_y = 20, box_w = 30, box_h = 40\<rparr>]),
      (2, [\<lparr>box_x = 11, box_y = 21, box_w = 31, box_h = 41\<rparr>])]"
  by (simp add: extract_raw_reference_boxes_def ex_doc_two_pages_def ex_splits ex_splits2
      ex_fields ex_fields2 Let_def del: split_on.simps)

theorem raw_box_page_is_parsed_first_field_witness:
  "(2, [\<lparr>box_x = 11, box_y = 21, box_w = 31, box_h = 41\<rparr>])
     \<in> set (extract_raw_reference_boxes dec_int dec_float (Some ex_doc_two_pages))
   \<and> \<lparr>box_x = 11, box_y = 21, box_w = 31, box_h = 41\<rparr>
     \<in> set [\<lparr>box_x = 11, box_y = 21, box_w = 31, box_h = 41\<rparr>]
   \<and> (\<exists>doc coords_str g.
           Some ex_doc_two_pages = Some doc
         \<and> Some coords_str \<in> set (if back_bibl_structs doc = [] then all_bibl_structs doc
                                    else back_bibl_structs doc)
         \<and> g \<in> set (split_on CHR '';'' coords_str)
         \<and> length (split_on CHR '','' g) = 5
         \<and> dec_int (split_on CHR '','' g ! 0) = Some 2
         \<and> dec_float (split_on CHR '','' g ! 1) = Some 11
         \<and> dec_float (split_on CHR '','' g ! 2) = Some 21
         \<and> dec_float (split_on CHR '','' g ! 3) = Some 31
         \<and> dec_float (split_on CHR '','' g ! 4) = Some 41)"
proof -
  have h: "(2, [\<lparr>box_x = 11, box_y = 21, box_w = 31, box_h = 41\<rparr>])
     \<in> set (extract_raw_reference_boxes dec_int dec_float (Some ex_doc_two_pages))"
    by (simp add: ex_two_pages_boxes)
  have b: "\<lparr>box_x = 11, box_y = 21, box_w = 31, box_h = 41\<rparr>
     \<in> set [\<lparr>box_x = 11, box_y = 21, box_w = 31, box_h = 41\<rparr>]" by simp
  from raw_box_page_is_parsed_first_field[OF h b] h b show ?thesis by simp
qed

text \<open>
  Claim C9, as stated: every box produced by coordinate parsing has a page of at least 1.
  The group \<^verbatim>\<open>0,10,20,30,40\<close> is stored under page 0.
\<close>

theorem raw_box_page_can_be_zero:
  "extract_raw_reference_boxes dec_int dec_float (Some ex_doc_page0)
     = [(0, [\<lparr>box_x = 10, box_y = 20, box_w = 30, box_h = 40\<rparr>])]
   \<and> \<not> 1 \<le> fst (hd (extract_raw_reference_boxes dec_int dec_float (Some ex_doc_page0)))"
  by (simp add: ex_page0_boxes)

subsection \<open>Final rectangles\<close>



lemma ex_good_dimensions:
  "get_page_dimensions dec_int dec_float (Some ex_doc_good) = Map.empty"
  by (simp add: get_page_dimensions_def ex_doc_good_def)

lemma ex_good_regions:
  "cluster_and_merge_boxes [\<lparr>box_x = 10, box_y = 20, box_w = 30, box_h = 40\<rparr>] 595 842
     = [\<lparr>box_x = 10, box_y = 20, box_w = 30, box_h = 40, cluster_id = 1\<rparr>]"
  by (simp add: cluster_and_merge_boxes_def cleaned_clusters_def append_cleaned_def
      clean_cluster_def merge_cluster_def min_x_def min_y_def max_x1_def max_y1_def
      py_min_def py_max_def fl_numeral)

lemma ex_good_coordinates:
  "calculate_final_coordinates dec_int dec_float (Some ex_doc_good) = [(1, 10, 20, 40, 60)]"
  by (simp add: calculate_final_coordinates_def ex_good_boxes ex_good_dimensions ex_good_regions
      region_coord_def)










subsection \<open>The jobs\<close>

lemma no_reference_elements_no_coordinates:
  assumes "\<And>doc. xml = Some doc \<Longrightarrow> back_bibl_structs doc = [] \<and> all_bibl_structs doc = []"
  shows "calculate_final_coordinates pint pfloat xml = []"
proof -
  have "extract_raw_reference_boxes pint pfloat xml = []"
    using assms by (cases xml) (simp_all add: extract_raw_reference_boxes_def)
  then show ?thesis by (simp add: calculate_final_coordinates_def)
qed

lemma ex_no_refs_coordinates:
  "calculate_final_coordinates dec_int dec_float (Some ex_doc_no_refs) = []"
  by (simp add: calculate_final_coordinates_def extract_raw_reference_boxes_def ex_doc_no_refs_def)


text \<open>
  Claim C7. When the redaction job computes an empty list of final rectangles, as it does
  when the markup has no reference element, it leaves at the output path a copy of the
  bytes of the source PDF and returns success with the message
  \<^verbatim>\<open>No references found; original file copied.\<close> The job reaches this point when the
  PDF exists; the copy is made when \<^verbatim>\<open>shutil.copy\<close> does not raise.
\<close>

theorem process_copies_source_when_no_coordinates:
  assumes "pdf_exists wd" and "copy_outcome wd = None"
  shows "(calculate_final_coordinates pint pfloat (xml_file wd) = [] \<longrightarrow>
            process pint pfloat wd =
              (Inr (True, ''No references found; original file copied.''),
               Some (Copied (pdf_bytes wd))))
       \<and> ((\<forall>doc. xml_file wd = Some doc \<longrightarrow>
               back_bibl_structs doc = [] \<and> all_bibl_structs doc = []) \<longrightarrow>
            calculate_final_coordinates pint pfloat (xml_file wd) = [])"
  using assms no_reference_elements_no_coordinates[of "xml_file wd" pint pfloat]
  by (auto simp: process_def)


theorem process_copies_source_when_no_coordinates_witness:
  "pdf_exists ex_world_no_refs \<and> copy_outcome ex_world_no_refs = None
   \<and> calculate_final_coordinates dec_int dec_float (xml_file ex_world_no_refs) = []
   \<and> process dec_int dec_float ex_world_no_refs =
       (Inr (True, ''No references found; original file copied.''), Some (Copied ''%PDF-1.7''))"
proof -
  have e: "pdf_exists ex_world_no_refs" and c: "copy_outcome ex_world_no_refs = None"
    by (simp_all add: ex_world_no_refs_def ex_world_def)
  have x: "calculate_final_coordinates dec_int dec_float (xml_file ex_world_no_refs) = []"
    by (simp add: ex_world_no_refs_def ex_no_refs_coordinates)
  have b: "pdf_bytes ex_world_no_refs = ''%PDF-1.7''"
    by (simp add: ex_world_no_refs_def ex_world_def)
  from process_copies_source_when_no_coordinates[OF e c, of dec_int dec_float] x b e c show ?thesis by simp
qed

lemma process_raises_iff:
  "(\<exists>e out. process pint pfloat wd = (Inl e, out)) \<longleftrightarrow>
     pdf_exists wd \<and> calculate_final_coordinates pint pfloat (xml_file wd) = []
       \<and> copy_outcome wd \<noteq> None"
  by (auto simp: process_def Let_def split: option.splits prod.splits)

lemma get_raw_xml_from_grobid_returns:
  "\<exists>r out. get_raw_xml_from_grobid gw = (Inr r, out)"
  by (auto simp: get_raw_xml_from_grobid_def split: sum.splits raised.splits prod.splits)


text \<open>
  Claim C8. Each job kind is to return a pair \<open>(success, message)\<close> and let no exception
  escape. The extraction job does (\<open>get_raw_xml_from_grobid_returns\<close>). The redaction
  job calls \<^verbatim>\<open>shutil.copy\<close> outside any \<^verbatim>\<open>try\<close>: with a markup file without references
  and an output path that cannot be written, the exception of the copy leaves
  \<^verbatim>\<open>process\<close> and no pair is returned.
\<close>

theorem process_lets_copy_exception_escape:
  "process dec_int dec_float ex_world_copy_fails
     = (Inl (OSError ''[Errno 13] Permission denied''), None)"
  by (simp add: process_def ex_world_copy_fails_def ex_world_no_refs_def ex_world_def
      ex_no_refs_coordinates)


end
